theory Spec2Isabelle
  imports Main
begin

section \<open>Python strings\<close>

text \<open>
  A Python \<^verbatim>\<open>str\<close> is modelled as a \<^typ>\<open>string\<close>: one \<^typ>\<open>char\<close> per code point, so
  the model covers the code points 0 to 255. \<^verbatim>\<open>len\<close> is \<^const>\<open>length\<close>, \<^verbatim>\<open>s[:n]\<close> is
  \<^const>\<open>take\<close>, \<^verbatim>\<open>s[n:]\<close> is \<^const>\<open>drop\<close> and \<^verbatim>\<open>a + b\<close> is \<^const>\<open>append\<close>.
\<close>

text \<open>\<^verbatim>\<open>str.isspace\<close> on one character: the twelve white-space code points below 256.\<close>

definition isspace :: "char \<Rightarrow> bool" where
  "isspace c = (c \<in> set [CHR 0x09, CHR 0x0A, CHR 0x0B, CHR 0x0C, CHR 0x0D,
                          CHR 0x1C, CHR 0x1D, CHR 0x1E, CHR 0x1F, CHR 0x20,
                          CHR 0x85, CHR 0xA0])"

fun lstrip :: "string \<Rightarrow> string" where
  "lstrip [] = []"
| "lstrip (c # cs) = (if isspace c then lstrip cs else c # cs)"

definition rstrip :: "string \<Rightarrow> string" where
  "rstrip s = rev (lstrip (rev s))"

text \<open>\<^verbatim>\<open>s.strip()\<close>\<close>

definition strip :: "string \<Rightarrow> string" where
  "strip s = rstrip (lstrip s)"

text \<open>\<^verbatim>\<open>s.startswith(p)\<close>\<close>

definition startswith :: "string \<Rightarrow> string \<Rightarrow> bool" where
  "startswith s p = (take (length p) s = p)"

text \<open>\<^verbatim>\<open>p in s\<close> for two strings: \<open>p\<close> occurs in \<open>s\<close> at some position.\<close>

fun contains :: "string \<Rightarrow> string \<Rightarrow> bool" where
  "contains [] p = (p = [])"
| "contains (c # cs) p = (startswith (c # cs) p \<or> contains cs p)"

text \<open>\<^verbatim>\<open>s.split(sep)\<close> for a separator of one character; the result is never empty.\<close>

fun split :: "char \<Rightarrow> string \<Rightarrow> string list" where
  "split sep [] = [[]]"
| "split sep (c # cs) =
     (if c = sep then [] # split sep cs
      else (case split sep cs of
              [] \<Rightarrow> [[c]]
            | w # ws \<Rightarrow> (c # w) # ws))"

section \<open>Exceptions\<close>

text \<open>
  The exceptions of \<^verbatim>\<open>scidownl.exception\<close> that the extractor raises, and the built-in
  ones its expressions can raise; \<open>OtherException\<close> stands for an exception of any other
  class, by the name of the class. \<open>ExtractException e\<close> is the exception raised inside
  the handler of \<^verbatim>\<open>extract\<close>: its message is formatted from \<open>e\<close>, the exception being
  handled.
\<close>

datatype exn =
    PdfTagNotFoundException string
  | PdfUrlNotFoundException string
  | TypeError
  | IndexError
  | OtherException string
  | ExtractException exn

text \<open>\<^verbatim>\<open>xs[i]\<close> for \<open>i \<ge> 0\<close>: raises \<^verbatim>\<open>IndexError\<close> out of range.\<close>

definition getitem :: "'a list \<Rightarrow> nat \<Rightarrow> exn + 'a" where
  "getitem xs i = (if i < length xs then Inr (xs ! i) else Inl IndexError)"

section \<open>The parsed page\<close>

text \<open>
  BeautifulSoup is an external library. A tag is what the extractor reads of it: its
  attribute dictionary, with strings as values, and its text. A parsed page is the answers to the queries the
  extractor makes: \<^verbatim>\<open>soup.select_one(selector)\<close>, \<^verbatim>\<open>soup.title\<close> and
  \<^verbatim>\<open>soup.find(name, attrs)\<close>, each \<open>None\<close> when no element matches.
\<close>

record tag =
  attrs :: "string \<rightharpoonup> string"
  get_text :: string

record soup =
  select_one :: "string \<Rightarrow> tag option"
  title :: "tag option"
  find_tag :: "string \<Rightarrow> (string \<times> string) list \<Rightarrow> tag option"

section \<open>Information, task context and health store\<close>

datatype information = PdfUrlTitleInformation (info_url: string) (info_title: string)

text \<open>
  The constants of class \<^verbatim>\<open>UrlInformation\<close> (module \<^verbatim>\<open>information\<close>) are parameters of
  the model.
\<close>

record UrlInformation =
  PROTOCOL_PREFIXES :: "string list"
  DEFAULT_PROTOCOL_PREFIX :: string

text \<open>
  Modelled from the spec: the values of \<^verbatim>\<open>UrlInformation.PROTOCOL_PREFIXES\<close> and
  \<^verbatim>\<open>UrlInformation.DEFAULT_PROTOCOL_PREFIX\<close>, which the spec's example fixes
  (\<^verbatim>\<open>//example.com/x\<close> resolves to \<^verbatim>\<open>https://example.com/x\<close>). Used in examples only.
\<close>

definition url_information :: UrlInformation where
  "url_information =
     \<lparr>PROTOCOL_PREFIXES = [''http://'', ''https://''],
      DEFAULT_PROTOCOL_PREFIX = ''https://''\<rparr>"

text \<open>
  The task context is a Python dictionary with string keys; its values are strings
  (\<^verbatim>\<open>status\<close>, \<^verbatim>\<open>referer\<close>), the extracted information (\<^verbatim>\<open>info\<close>), an exception
  (\<^verbatim>\<open>error\<close>) or \<^verbatim>\<open>None\<close>.
\<close>

datatype ctx_value = StrV string | InfoV information | ExnV exn | NoneV

record task =
  "context" :: "string \<rightharpoonup> ctx_value"

text \<open>
  \<^verbatim>\<open>ScihubUrlService\<close> (module \<^verbatim>\<open>db.service\<close>) is the health store. The model keeps the
  calls made on it, oldest first; a call returns normally.
\<close>

datatype service_call =
    IncrementFailedTimes ctx_value
  | IncrementSuccessTimes ctx_value

definition increment_failed_times :: "ctx_value \<Rightarrow> service_call list \<Rightarrow> service_call list" where
  "increment_failed_times scihub_url service = service @ [IncrementFailedTimes scihub_url]"

section \<open>The default referer\<close>

text \<open>
  A mirror record and a chooser (module \<^verbatim>\<open>chooser\<close>) as \<^verbatim>\<open>get_default_referer\<close> uses
  them: \<^verbatim>\<open>len(chooser)\<close> and the outcome of \<^verbatim>\<open>chooser.next()\<close>.
\<close>

record mirror =
  url :: string
  success_times :: nat
  failed_times :: nat

record chooser =
  chooser_len :: nat
  chooser_next :: "exn + mirror"

text \<open>
  \<open>scihub_url_choosers\<close> maps a chooser type to the chooser its class constructs;
  \<open>availability_first\<close> is the one \<^verbatim>\<open>AvailabilityFirstScihubUrlChooser\<close> constructs.
\<close>

definition get_default_referer ::
    "string \<Rightarrow> (string \<rightharpoonup> chooser) \<Rightarrow> chooser \<Rightarrow> exn + string" where
  "get_default_referer scihub_url_chooser_type scihub_url_choosers availability_first =
     (let chooser = (case scihub_url_choosers scihub_url_chooser_type of
                       None \<Rightarrow> availability_first
                     | Some c \<Rightarrow> c)
      in if chooser_len chooser = 0 then Inr ''https://sci-hub.se''
         else (case chooser_next chooser of
                 Inl e \<Rightarrow> Inl e
               | Inr m \<Rightarrow> Inr (url m)))"

section \<open>The extractor\<close>

record HtmlPdfExtractor =
  content :: soup
  task :: "task option"
  service :: "service_call list"
  pdf_tag_selector :: string
  pdf_tag_attr :: string
  DEFAULT_REFERER :: string

text \<open>
  \<^verbatim>\<open>__init__\<close>: a task, when given, gets the status \<^verbatim>\<open>extracting\<close>. The selector
  and the attribute come from the configuration, the default referer from
  \<^verbatim>\<open>get_default_referer\<close> when the class is created.
\<close>

definition init :: "string \<Rightarrow> string \<Rightarrow> string \<Rightarrow> service_call list \<Rightarrow> soup \<Rightarrow>
    task option \<Rightarrow> HtmlPdfExtractor" where
  "init selector attr default_referer svc c tk =
     \<lparr>content = c,
      task = (case tk of
                None \<Rightarrow> None
              | Some t \<Rightarrow> Some (t\<lparr>context := (context t)(''status'' \<mapsto> StrV ''extracting'')\<rparr>)),
      service = svc,
      pdf_tag_selector = selector,
      pdf_tag_attr = attr,
      DEFAULT_REFERER = default_referer\<rparr>"

definition extract_raw_url :: "HtmlPdfExtractor \<Rightarrow> exn + string" where
  "extract_raw_url self =
     (case select_one (content self) (pdf_tag_selector self) of
        None \<Rightarrow>
          Inl (PdfTagNotFoundException
                 (''No pdf tag was found in the given content with the selector: ''
                  @ pdf_tag_selector self))
      | Some pdf_tag \<Rightarrow>
          (case attrs pdf_tag (pdf_tag_attr self) of
             None \<Rightarrow>
               Inl (PdfUrlNotFoundException
                      (''No pdf url was found in the pdf tag: '' @ get_text pdf_tag
                       @ '' with the attr '' @ pdf_tag_attr self))
           | Some raw_url \<Rightarrow> Inr raw_url))"

text \<open>The loop over \<^verbatim>\<open>PROTOCOL_PREFIXES\<close>: does some prefix occur in the raw value?\<close>

fun has_protocol_prefix :: "string list \<Rightarrow> string \<Rightarrow> bool" where
  "has_protocol_prefix [] raw_url = False"
| "has_protocol_prefix (prefix # prefixes) raw_url =
     (if contains raw_url prefix then True else has_protocol_prefix prefixes raw_url)"

text \<open>The referer that a value starting with one slash is resolved against.\<close>

definition get_referer :: "HtmlPdfExtractor \<Rightarrow> ctx_value" where
  "get_referer self =
     (case task self of
        None \<Rightarrow> StrV (DEFAULT_REFERER self)
      | Some t \<Rightarrow>
          (case context t ''referer'' of
             None \<Rightarrow> StrV (DEFAULT_REFERER self)
           | Some v \<Rightarrow> v))"

text \<open>\<^verbatim>\<open>referer + url\<close>: a \<^verbatim>\<open>TypeError\<close> unless the referer is a string.\<close>

definition add_str :: "ctx_value \<Rightarrow> string \<Rightarrow> exn + string" where
  "add_str referer u = (case referer of StrV r \<Rightarrow> Inr (r @ u) | _ \<Rightarrow> Inl TypeError)"

definition extract_url :: "UrlInformation \<Rightarrow> HtmlPdfExtractor \<Rightarrow> exn + string" where
  "extract_url ui self =
     (case extract_raw_url self of
        Inl e \<Rightarrow> Inl e
      | Inr raw_url \<Rightarrow>
          if has_protocol_prefix (PROTOCOL_PREFIXES ui) raw_url then Inr raw_url
          else (case getitem (split CHR ''#'' raw_url) 0 of
                  Inl e \<Rightarrow> Inl e
                | Inr u \<Rightarrow>
                    if startswith u ''//'' then Inr (DEFAULT_PROTOCOL_PREFIX ui @ drop 2 u)
                    else if startswith u ''/'' then add_str (get_referer self) u
                    else Inr u))"

text \<open>The character class \<^verbatim>\<open>rstr\<close> of \<^verbatim>\<open>_clean_title\<close>: / \ : * ? " < > |\<close>

definition rstr :: "char list" where
  "rstr = [CHR ''/'', CHR 0x5C, CHR '':'', CHR ''*'', CHR ''?'', CHR 0x22,
           CHR ''<'', CHR ''>'', CHR ''|'']"

text \<open>\<^verbatim>\<open>re.sub(rstr, " ", title)\<close>\<close>

fun re_sub :: "string \<Rightarrow> string" where
  "re_sub [] = []"
| "re_sub (c # cs) = (if c \<in> set rstr then CHR '' '' else c) # re_sub cs"

definition clean_title :: "string \<Rightarrow> string" where
  "clean_title t = (if t = [] then [] else strip (take 200 (re_sub t)))"

definition extract_title :: "HtmlPdfExtractor \<Rightarrow> exn + string" where
  "extract_title self =
     (let sp = content self;
          method1 =
            (case title sp of
               None \<Rightarrow> Inr []
             | Some soup_title \<Rightarrow>
                 if length (get_text soup_title) > 0 then
                   (if CHR ''|'' \<in> set (get_text soup_title)
                    then getitem (split CHR ''|'' (get_text soup_title)) 1
                    else Inr (get_text soup_title))
                 else Inr [])
      in case method1 of
           Inl e \<Rightarrow> Inl e
         | Inr t1 \<Rightarrow>
             let t2 = (if strip t1 = [] then
                         (case find_tag sp ''h1'' [] of
                            None \<Rightarrow> t1
                          | Some h1 \<Rightarrow> get_text h1)
                       else t1);
                 t3 = (if strip t2 = [] then
                         (case (case find_tag sp ''meta'' [(''name'', ''citation_title'')] of
                                  Some m \<Rightarrow> Some m
                                | None \<Rightarrow> find_tag sp ''meta'' [(''property'', ''og:title'')]) of
                            None \<Rightarrow> t2
                          | Some meta_title \<Rightarrow>
                              (case attrs meta_title ''content'' of
                                 None \<Rightarrow> t2
                               | Some c \<Rightarrow> c))
                       else t2)
             in Inr (clean_title t3))"

text \<open>The body of the \<^verbatim>\<open>try\<close> block up to the construction of the information.\<close>

definition try_extract :: "UrlInformation \<Rightarrow> HtmlPdfExtractor \<Rightarrow> exn + information" where
  "try_extract ui self =
     (case extract_url ui self of
        Inl e \<Rightarrow> Inl e
      | Inr u \<Rightarrow>
          (case extract_title self of
             Inl e \<Rightarrow> Inl e
           | Inr t \<Rightarrow> Inr (PdfUrlTitleInformation u t)))"

text \<open>
  Method \<^verbatim>\<open>extract\<close> (the name is an Isabelle keyword, hence \<open>extract_info\<close>): it
  returns the information or the exception it raises, and the extractor with its task
  and health store as the call leaves them.
\<close>

definition extract_info ::
    "UrlInformation \<Rightarrow> HtmlPdfExtractor \<Rightarrow> (exn + information) \<times> HtmlPdfExtractor" where
  "extract_info ui self =
     (case try_extract ui self of
        Inr info \<Rightarrow>
          (Inr info,
           (case task self of
              None \<Rightarrow> self
            | Some t \<Rightarrow> self\<lparr>task := Some (t\<lparr>context := (context t)(''info'' \<mapsto> InfoV info)\<rparr>)\<rparr>))
      | Inl e \<Rightarrow>
          (Inl (ExtractException e),
           (case task self of
              None \<Rightarrow> self
            | Some t \<Rightarrow>
                (let ctx = (context t)(''status'' \<mapsto> StrV ''extracting_failed'',
                                        ''error'' \<mapsto> ExnV e);
                     scihub_url = (case ctx ''referer'' of None \<Rightarrow> NoneV | Some v \<Rightarrow> v)
                 in self\<lparr>task := Some (t\<lparr>context := ctx\<rparr>),
                         service := increment_failed_times scihub_url (service self)\<rparr>))))"

section \<open>The specification's wording\<close>

text \<open>Empty or white-space-only text: \<^verbatim>\<open>not t.strip()\<close>.\<close>

definition blank :: "string \<Rightarrow> bool" where
  "blank t = (strip t = [])"

text \<open>
  The four title methods as the specification words them, each giving the empty string
  when its element or attribute is missing: the title element's text (the segment after
  the first bar when there is one), the first level-1 heading's text, and the content of
  a meta element.
\<close>

definition title_element_text :: "soup \<Rightarrow> string" where
  "title_element_text sp =
     (case title sp of
        None \<Rightarrow> []
      | Some t \<Rightarrow>
          if CHR ''|'' \<in> set (get_text t)
          then takeWhile (\<lambda>c. c \<noteq> CHR ''|'') (tl (dropWhile (\<lambda>c. c \<noteq> CHR ''|'') (get_text t)))
          else get_text t)"

definition h1_text :: "soup \<Rightarrow> string" where
  "h1_text sp = (case find_tag sp ''h1'' [] of None \<Rightarrow> [] | Some h \<Rightarrow> get_text h)"

definition meta_content :: "soup \<Rightarrow> string \<Rightarrow> string \<Rightarrow> string" where
  "meta_content sp k v =
     (case find_tag sp ''meta'' [(k, v)] of
        None \<Rightarrow> []
      | Some m \<Rightarrow> (case attrs m ''content'' of None \<Rightarrow> [] | Some c \<Rightarrow> c))"

text \<open>The first method that succeeds wins: the first text that is not blank.\<close>

fun first_success :: "string list \<Rightarrow> string" where
  "first_success [] = []"
| "first_success (t # ts) = (if blank t then first_success ts else t)"

definition title_by_priority :: "soup \<Rightarrow> string" where
  "title_by_priority sp =
     clean_title (first_success
       [title_element_text sp, h1_text sp,
        meta_content sp ''name'' ''citation_title'',
        meta_content sp ''property'' ''og:title''])"

text \<open>
  An absolute result as the specification words it for a raw value \<open>raw_url\<close>, a referer
  and a result \<open>r\<close>: the result contains a recognized protocol prefix, or the raw value
  starts with two slashes and the result starts with the default scheme, or the raw value
  starts with a slash and the result starts with the referer.
\<close>

definition absolute_by_construction ::
    "UrlInformation \<Rightarrow> string \<Rightarrow> string \<Rightarrow> string \<Rightarrow> bool" where
  "absolute_by_construction ui referer raw_url r =
     (has_protocol_prefix (PROTOCOL_PREFIXES ui) r
      \<or> (startswith raw_url ''//'' \<and> startswith r (DEFAULT_PROTOCOL_PREFIX ui))
      \<or> (startswith raw_url ''/'' \<and> startswith r referer))"

section \<open>Example pages\<close>

text \<open>
  A page given by the element that the selector \<^verbatim>\<open>#pdf\<close> matches, its title element, its
  first level-1 heading and its \<^verbatim>\<open>citation_title\<close> and \<^verbatim>\<open>og:title\<close> meta elements.
\<close>

definition example_soup ::
    "tag option \<Rightarrow> tag option \<Rightarrow> tag option \<Rightarrow> tag option \<Rightarrow> tag option \<Rightarrow> soup" where
  "example_soup pdf ttl h1 cit og =
     \<lparr>select_one = (\<lambda>sel. if sel = ''#pdf'' then pdf else None),
      title = ttl,
      find_tag = (\<lambda>name flt.
        if name = ''h1'' \<and> flt = [] then h1
        else if name = ''meta'' \<and> flt = [(''name'', ''citation_title'')] then cit
        else if name = ''meta'' \<and> flt = [(''property'', ''og:title'')] then og
        else None)\<rparr>"

definition pdf_tag_with :: "string \<Rightarrow> tag" where
  "pdf_tag_with raw_url = \<lparr>attrs = [''src'' \<mapsto> raw_url], get_text = []\<rparr>"

definition text_tag :: "string \<Rightarrow> tag" where
  "text_tag t = \<lparr>attrs = Map.empty, get_text = t\<rparr>"

definition meta_tag :: "string \<Rightarrow> tag" where
  "meta_tag c = \<lparr>attrs = [''content'' \<mapsto> c], get_text = []\<rparr>"

definition example_task :: "ctx_value \<Rightarrow> task" where
  "example_task referer = \<lparr>context = [''status'' \<mapsto> StrV ''crawled'', ''referer'' \<mapsto> referer]\<rparr>"

definition example_extractor :: "soup \<Rightarrow> task option \<Rightarrow> HtmlPdfExtractor" where
  "example_extractor sp tk = init ''#pdf'' ''src'' ''https://sci-hub.se'' [] sp tk"

section \<open>Facts about the string operations\<close>

lemma lstrip_dropWhile: "lstrip s = dropWhile isspace s"
  by (induction s) auto

lemma strip_eq: "strip s = rev (dropWhile isspace (rev (dropWhile isspace s)))"
  by (simp add: strip_def rstrip_def lstrip_dropWhile)

lemma strip_empty_iff: "strip s = [] \<longleftrightarrow> (\<forall>c \<in> set s. isspace c)"
proof -
  have "strip s = [] \<longleftrightarrow> dropWhile isspace (rev (dropWhile isspace s)) = []"
    by (simp add: strip_eq)
  also have "\<dots> \<longleftrightarrow> (\<forall>c \<in> set (dropWhile isspace s). isspace c)"
    by (simp add: dropWhile_eq_Nil_conv)
  also have "\<dots> \<longleftrightarrow> (\<forall>c \<in> set s. isspace c)"
  proof
    assume a: "\<forall>c \<in> set (dropWhile isspace s). isspace c"
    show "\<forall>c \<in> set s. isspace c"
    proof (cases "dropWhile isspace s")
      case Nil
      then show ?thesis by (simp add: dropWhile_eq_Nil_conv)
    next
      case (Cons x xs)
      then have "\<not> isspace x" using hd_dropWhile[of isspace s] by auto
      moreover have "x \<in> set (dropWhile isspace s)" using Cons by simp
      ultimately show ?thesis using a by blast
    qed
  next
    assume "\<forall>c \<in> set s. isspace c"
    then show "\<forall>c \<in> set (dropWhile isspace s). isspace c"
      using set_dropWhileD by fastforce
  qed
  finally show ?thesis .
qed

lemma length_strip: "length (strip s) \<le> length s"
proof -
  have "length (strip s) = length (dropWhile isspace (rev (dropWhile isspace s)))"
    by (simp add: strip_eq)
  also have "\<dots> \<le> length (rev (dropWhile isspace s))" by (rule length_dropWhile_le)
  also have "\<dots> = length (dropWhile isspace s)" by simp
  also have "\<dots> \<le> length s" by (rule length_dropWhile_le)
  finally show ?thesis .
qed

lemma set_strip: "set (strip s) \<subseteq> set s"
proof -
  have "set (strip s) \<subseteq> set (dropWhile isspace s)"
    using set_dropWhileD by (fastforce simp: strip_eq)
  also have "\<dots> \<subseteq> set s" using set_dropWhileD by fastforce
  finally show ?thesis .
qed

lemma strip_decomp:
  "s = takeWhile isspace s @ strip s @ rev (takeWhile isspace (rev (dropWhile isspace s)))"
proof -
  let ?d = "dropWhile isspace s"
  have "rev ?d = takeWhile isspace (rev ?d) @ dropWhile isspace (rev ?d)" by simp
  then have "?d = rev (dropWhile isspace (rev ?d)) @ rev (takeWhile isspace (rev ?d))"
    by (metis rev_append rev_rev_ident)
  then have "?d = strip s @ rev (takeWhile isspace (rev ?d))" by (simp add: strip_eq)
  moreover have "s = takeWhile isspace s @ ?d" by simp
  ultimately show ?thesis by metis
qed

lemma strip_ends:
  assumes "strip s \<noteq> []"
  shows "\<not> isspace (hd (strip s)) \<and> \<not> isspace (last (strip s))"
proof -
  let ?d = "dropWhile isspace s"
  let ?e = "dropWhile isspace (rev ?d)"
  from assms have e: "?e \<noteq> []" by (simp add: strip_eq)
  then have d: "?d \<noteq> []" by (metis dropWhile.simps(1) rev.simps(1))
  have "last (strip s) = hd ?e" using e by (simp add: strip_eq last_rev)
  moreover have "\<not> isspace (hd ?e)" using e hd_dropWhile by blast
  moreover have "\<not> isspace (hd ?d)" using d hd_dropWhile by blast
  moreover have "hd (strip s) = hd ?d"
  proof -
    have "rev ?d = takeWhile isspace (rev ?d) @ ?e" by simp
    then have "?d = rev ?e @ rev (takeWhile isspace (rev ?d))"
      by (metis rev_append rev_rev_ident)
    then have "hd ?d = hd (rev ?e)" using e by (metis hd_append2 rev_is_Nil_conv)
    then show ?thesis by (simp add: strip_eq)
  qed
  ultimately show ?thesis by simp
qed

lemma strip_Nil: "strip [] = []"
  by (simp add: strip_def rstrip_def)

lemma strip_all_space: "(\<forall>c \<in> set t. isspace c) \<Longrightarrow> strip t = []"
  by (simp add: strip_empty_iff)

lemma split_nonempty: "split c s \<noteq> []"
  by (induction s) (auto split: list.splits)

lemma hd_split: "hd (split c s) = takeWhile (\<lambda>x. x \<noteq> c) s"
  by (induction s) (auto split: list.splits simp: split_nonempty)

lemma getitem_split_0: "getitem (split c s) 0 = Inr (takeWhile (\<lambda>x. x \<noteq> c) s)"
  using split_nonempty[of c s] hd_split[of c s]
  by (cases "split c s") (auto simp: getitem_def)

lemma split_no_sep: "c \<notin> set a \<Longrightarrow> split c a = [a]"
  by (induction a) auto

lemma split_at_sep: "c \<notin> set a \<Longrightarrow> split c (a @ c # r) = a # split c r"
  by (induction a) auto

lemma getitem_split_1:
  assumes "c \<in> set s"
  shows "getitem (split c s) 1 = Inr (takeWhile (\<lambda>x. x \<noteq> c) (tl (dropWhile (\<lambda>x. x \<noteq> c) s)))"
proof -
  let ?a = "takeWhile (\<lambda>x. x \<noteq> c) s"
  let ?d = "dropWhile (\<lambda>x. x \<noteq> c) s"
  from assms have "?d \<noteq> []" by (simp add: dropWhile_eq_Nil_conv)
  moreover from this have "hd ?d = c" using hd_dropWhile[of "\<lambda>x. x \<noteq> c" s] by simp
  ultimately have d: "?d = c # tl ?d" by (cases ?d) auto
  have "c \<notin> set ?a" using set_takeWhileD by fastforce
  moreover have "s = ?a @ c # tl ?d" using d takeWhile_dropWhile_id[of "\<lambda>x. x \<noteq> c" s] by simp
  ultimately have "split c s = ?a # split c (tl ?d)" using split_at_sep by metis
  then have "getitem (split c s) 1 = Inr (hd (split c (tl ?d)))"
    using split_nonempty[of c "tl ?d"] by (cases "split c (tl ?d)") (auto simp: getitem_def)
  then show ?thesis by (simp add: hd_split)
qed

lemma startswith_iff: "startswith s p \<longleftrightarrow> (\<exists>b. s = p @ b)"
proof
  assume "startswith s p"
  then have "s = p @ drop (length p) s" unfolding startswith_def by (metis append_take_drop_id)
  then show "\<exists>b. s = p @ b" ..
next
  assume "\<exists>b. s = p @ b"
  then show "startswith s p" by (auto simp: startswith_def)
qed

lemma contains_iff: "contains s p \<longleftrightarrow> (\<exists>a b. s = a @ p @ b)"
proof (induction s)
  case Nil
  then show ?case by auto
next
  case (Cons c cs)
  show ?case
  proof
    assume "contains (c # cs) p"
    then consider "startswith (c # cs) p" | "contains cs p" by auto
    then show "\<exists>a b. c # cs = a @ p @ b"
    proof cases
      case 1
      then obtain b where "c # cs = p @ b" by (auto simp: startswith_iff)
      then have "c # cs = [] @ p @ b" by simp
      then show ?thesis by blast
    next
      case 2
      then obtain a b where "cs = a @ p @ b" using Cons.IH by auto
      then have "c # cs = (c # a) @ p @ b" by simp
      then show ?thesis by blast
    qed
  next
    assume "\<exists>a b. c # cs = a @ p @ b"
    then obtain a b where ab: "c # cs = a @ p @ b" by auto
    show "contains (c # cs) p"
    proof (cases a)
      case Nil
      then have "startswith (c # cs) p" using ab by (auto simp: startswith_iff)
      then show ?thesis by simp
    next
      case (Cons x xs)
      then have "cs = xs @ p @ b" using ab by simp
      then have "contains cs p" using Cons.IH by blast
      then show ?thesis by simp
    qed
  qed
qed

lemma has_protocol_prefix_iff: "has_protocol_prefix ps raw \<longleftrightarrow> (\<exists>p \<in> set ps. contains raw p)"
  by (induction ps) auto

lemma re_sub_map: "re_sub t = map (\<lambda>c. if c \<in> set rstr then CHR '' '' else c) t"
  by (induction t) auto

lemma isspace_not_rstr: "isspace c \<Longrightarrow> c \<notin> set rstr"
  by (auto simp: isspace_def rstr_def)

section \<open>Evaluating the examples\<close>

lemmas ex_defs = example_extractor_def init_def example_soup_def pdf_tag_with_def text_tag_def
  meta_tag_def example_task_def url_information_def

lemmas run_defs = extract_info_def try_extract_def extract_url_def extract_raw_url_def
  extract_title_def clean_title_def getitem_def startswith_def add_str_def get_referer_def
  increment_failed_times_def strip_def rstrip_def isspace_def rstr_def

section \<open>URL resolution\<close>

lemma startswith_takeWhile_slash:
  "startswith (takeWhile (\<lambda>c. c \<noteq> CHR ''#'') s) ''/'' = startswith s ''/''"
  by (cases s) (auto simp: startswith_def)

lemma startswith_takeWhile_slashes:
  "startswith (takeWhile (\<lambda>c. c \<noteq> CHR ''#'') s) ''//'' = startswith s ''//''"
proof (cases s)
  case Nil
  then show ?thesis by (simp add: startswith_def)
next
  case (Cons a t)
  then show ?thesis by (cases t) (auto simp: startswith_def)
qed

lemma extract_raw_url_found:
  assumes "select_one (content self) (pdf_tag_selector self) = Some pdf_tag"
    and "attrs pdf_tag (pdf_tag_attr self) = Some raw_url"
  shows "extract_raw_url self = Inr raw_url"
  using assms by (simp add: extract_raw_url_def)

lemma extract_raw_url_Inr:
  assumes "extract_raw_url self = Inr raw_url"
  shows "\<exists>pdf_tag. select_one (content self) (pdf_tag_selector self) = Some pdf_tag
           \<and> attrs pdf_tag (pdf_tag_attr self) = Some raw_url"
  using assms by (auto simp: extract_raw_url_def split: option.splits)

lemma extract_raw_url_Inl:
  "extract_raw_url self = Inl e \<longleftrightarrow>
     (select_one (content self) (pdf_tag_selector self) = None
        \<and> e = PdfTagNotFoundException
              (''No pdf tag was found in the given content with the selector: ''
               @ pdf_tag_selector self))
     \<or> (\<exists>pdf_tag. select_one (content self) (pdf_tag_selector self) = Some pdf_tag
           \<and> attrs pdf_tag (pdf_tag_attr self) = None
           \<and> e = PdfUrlNotFoundException
                 (''No pdf url was found in the pdf tag: '' @ get_text pdf_tag
                  @ '' with the attr '' @ pdf_tag_attr self))"
  by (auto simp: extract_raw_url_def split: option.splits)

lemma extract_url_resolved:
  assumes "extract_raw_url self = Inr raw_url"
    and "u = takeWhile (\<lambda>c. c \<noteq> CHR ''#'') raw_url"
  shows "extract_url ui self =
           (if has_protocol_prefix (PROTOCOL_PREFIXES ui) raw_url then Inr raw_url
            else if startswith raw_url ''//'' then Inr (DEFAULT_PROTOCOL_PREFIX ui @ drop 2 u)
            else if startswith raw_url ''/'' then add_str (get_referer self) u
            else Inr u)"
  using assms
  by (simp add: extract_url_def getitem_split_0 startswith_takeWhile_slash
      startswith_takeWhile_slashes)

lemma extract_url_Inl:
  "extract_url ui self = Inl e \<longleftrightarrow>
     extract_raw_url self = Inl e
     \<or> (\<exists>raw_url. extract_raw_url self = Inr raw_url
           \<and> \<not> has_protocol_prefix (PROTOCOL_PREFIXES ui) raw_url
           \<and> startswith raw_url ''/'' \<and> \<not> startswith raw_url ''//''
           \<and> (\<forall>referer. get_referer self \<noteq> StrV referer) \<and> e = TypeError)"
proof (cases "extract_raw_url self")
  case (Inl a)
  then show ?thesis by (simp add: extract_url_def)
next
  case (Inr raw_url)
  show ?thesis
    unfolding extract_url_resolved [OF Inr refl] Inr
    by (cases "get_referer self") (auto simp: add_str_def)
qed

lemma has_protocol_prefix_append:
  assumes "has_protocol_prefix ps a"
  shows "has_protocol_prefix ps (a @ b)"
proof -
  from assms obtain p where p: "p \<in> set ps" "contains a p"
    by (auto simp: has_protocol_prefix_iff)
  then obtain x y where "a = x @ p @ y" by (auto simp: contains_iff)
  then have "a @ b = x @ p @ (y @ b)" by simp
  then have "contains (a @ b) p" unfolding contains_iff by blast
  with p show ?thesis by (auto simp: has_protocol_prefix_iff)
qed

lemma has_protocol_prefix_member:
  assumes "p \<in> set ps"
  shows "has_protocol_prefix ps (p @ b)"
proof -
  have "p @ b = [] @ p @ b" by simp
  then have "contains (p @ b) p" unfolding contains_iff by blast
  with assms show ?thesis by (auto simp: has_protocol_prefix_iff)
qed

text \<open>
  Claim C4. A raw value that contains a recognized protocol prefix is returned by
  \<^verbatim>\<open>_extract_url\<close> unchanged, with any fragment it carries.
\<close>

theorem extract_url_absolute_unchanged:
  assumes "select_one (content self) (pdf_tag_selector self) = Some pdf_tag"
    and "attrs pdf_tag (pdf_tag_attr self) = Some raw_url"
    and "has_protocol_prefix (PROTOCOL_PREFIXES ui) raw_url"
  shows "extract_url ui self = Inr raw_url"
  using assms by (simp add: extract_url_def extract_raw_url_def)

text \<open>An absolute URL with a fragment.\<close>

theorem extract_url_absolute_unchanged_witness:
  "has_protocol_prefix (PROTOCOL_PREFIXES url_information) ''https://example.com/a.pdf#page=2''
   \<and> extract_url url_information
        (example_extractor
           (example_soup (Some (pdf_tag_with ''https://example.com/a.pdf#page=2'')) None None None None)
           (Some (example_task (StrV ''https://m1.test''))))
       = Inr ''https://example.com/a.pdf#page=2''"
proof -
  let ?raw = "''https://example.com/a.pdf#page=2''"
  let ?self = "example_extractor (example_soup (Some (pdf_tag_with ?raw)) None None None None)
                 (Some (example_task (StrV ''https://m1.test'')))"
  have sel: "select_one (content ?self) (pdf_tag_selector ?self) = Some (pdf_tag_with ?raw)"
    by (simp add: ex_defs)
  have att: "attrs (pdf_tag_with ?raw) (pdf_tag_attr ?self) = Some ?raw"
    by (simp add: ex_defs)
  have pre: "has_protocol_prefix (PROTOCOL_PREFIXES url_information) ?raw"
    by (simp add: url_information_def startswith_def)
  show ?thesis
    using pre extract_url_absolute_unchanged [OF sel att pre] by simp
qed

text \<open>
  Claim C5. For a raw value in which no recognized protocol prefix occurs, \<^verbatim>\<open>_extract_url\<close>
  first cuts the value at its first \<^verbatim>\<open>#\<close>; \<open>u\<close> is what is left. A value starting with
  two slashes gets the default protocol prefix in place of the two slashes: the default
  prefix being a scheme followed by two slashes, the value is prefixed with the scheme. A
  value starting with one slash is appended to the referer string of the task context,
  and to the default referer when the extractor has no task or the context has no
  referer. These are all the outcomes there are: when the context holds something other
  than a string as its referer, the addition raises a \<^verbatim>\<open>TypeError\<close>, and a value starting
  with no slash is returned as \<open>u\<close>, with nothing put before it.
\<close>

theorem extract_url_relative_resolution:
  assumes "select_one (content self) (pdf_tag_selector self) = Some pdf_tag"
    and "attrs pdf_tag (pdf_tag_attr self) = Some raw_url"
    and "\<not> has_protocol_prefix (PROTOCOL_PREFIXES ui) raw_url"
    and "u = takeWhile (\<lambda>c. c \<noteq> CHR ''#'') raw_url"
  shows "raw_url = u @ dropWhile (\<lambda>c. c \<noteq> CHR ''#'') raw_url \<and> CHR ''#'' \<notin> set u
       \<and> (startswith raw_url ''//'' \<longrightarrow>
            extract_url ui self = Inr (DEFAULT_PROTOCOL_PREFIX ui @ drop 2 u)
          \<and> (\<forall>scheme. DEFAULT_PROTOCOL_PREFIX ui = scheme @ ''//'' \<longrightarrow>
                 extract_url ui self = Inr (scheme @ u)))
       \<and> (startswith raw_url ''/'' \<and> \<not> startswith raw_url ''//'' \<longrightarrow>
            (\<forall>t referer. task self = Some t \<and> context t ''referer'' = Some (StrV referer) \<longrightarrow>
               extract_url ui self = Inr (referer @ u))
          \<and> (task self = None \<or> (\<exists>t. task self = Some t \<and> context t ''referer'' = None) \<longrightarrow>
               extract_url ui self = Inr (DEFAULT_REFERER self @ u))
          \<and> (\<forall>t v. task self = Some t \<and> context t ''referer'' = Some v
                   \<and> (\<forall>referer. v \<noteq> StrV referer) \<longrightarrow>
               extract_url ui self = Inl TypeError))
       \<and> (\<not> startswith raw_url ''/'' \<longrightarrow> extract_url ui self = Inr u)"
proof -
  have raw: "extract_raw_url self = Inr raw_url"
    using assms(1,2) by (rule extract_raw_url_found)
  note res = extract_url_resolved [OF raw assms(4), of ui]
  have frag: "raw_url = u @ dropWhile (\<lambda>c. c \<noteq> CHR ''#'') raw_url" "CHR ''#'' \<notin> set u"
    using assms(4) set_takeWhileD by fastforce+
  have slashes: "startswith raw_url ''//'' \<Longrightarrow> u = ''//'' @ drop 2 u"
    using assms(4) startswith_takeWhile_slashes [of raw_url]
    by (metis append_take_drop_id length_Cons list.size(3) numeral_2_eq_2 startswith_def)
  have two: "startswith raw_url ''//'' \<longrightarrow>
      extract_url ui self = Inr (DEFAULT_PROTOCOL_PREFIX ui @ drop 2 u)
      \<and> (\<forall>scheme. DEFAULT_PROTOCOL_PREFIX ui = scheme @ ''//'' \<longrightarrow>
             extract_url ui self = Inr (scheme @ u))"
  proof
    assume sl: "startswith raw_url ''//''"
    then have r: "extract_url ui self = Inr (DEFAULT_PROTOCOL_PREFIX ui @ drop 2 u)"
      using res assms(3) by simp
    have "extract_url ui self = Inr (scheme @ u)"
      if "DEFAULT_PROTOCOL_PREFIX ui = scheme @ ''//''" for scheme
    proof -
      have "scheme @ u = scheme @ ''//'' @ drop 2 u" using slashes [OF sl] by simp
      then show ?thesis using r that by simp
    qed
    with r show "extract_url ui self = Inr (DEFAULT_PROTOCOL_PREFIX ui @ drop 2 u)
      \<and> (\<forall>scheme. DEFAULT_PROTOCOL_PREFIX ui = scheme @ ''//'' \<longrightarrow>
             extract_url ui self = Inr (scheme @ u))"
      by blast
  qed
  have one: "startswith raw_url ''/'' \<and> \<not> startswith raw_url ''//'' \<longrightarrow>
      (\<forall>t referer. task self = Some t \<and> context t ''referer'' = Some (StrV referer) \<longrightarrow>
         extract_url ui self = Inr (referer @ u))
    \<and> (task self = None \<or> (\<exists>t. task self = Some t \<and> context t ''referer'' = None) \<longrightarrow>
         extract_url ui self = Inr (DEFAULT_REFERER self @ u))
    \<and> (\<forall>t v. task self = Some t \<and> context t ''referer'' = Some v
             \<and> (\<forall>referer. v \<noteq> StrV referer) \<longrightarrow>
         extract_url ui self = Inl TypeError)"
  proof (intro impI conjI allI)
    fix t referer
    assume "startswith raw_url ''/'' \<and> \<not> startswith raw_url ''//''"
      and "task self = Some t \<and> context t ''referer'' = Some (StrV referer)"
    then show "extract_url ui self = Inr (referer @ u)"
      using res assms(3) by (simp add: add_str_def get_referer_def)
  next
    assume "startswith raw_url ''/'' \<and> \<not> startswith raw_url ''//''"
      and "task self = None \<or> (\<exists>t. task self = Some t \<and> context t ''referer'' = None)"
    then show "extract_url ui self = Inr (DEFAULT_REFERER self @ u)"
      using res assms(3) by (auto simp: add_str_def get_referer_def)
  next
    fix t v
    assume "startswith raw_url ''/'' \<and> \<not> startswith raw_url ''//''"
      and "task self = Some t \<and> context t ''referer'' = Some v \<and> (\<forall>referer. v \<noteq> StrV referer)"
    then show "extract_url ui self = Inl TypeError"
      using res assms(3) by (cases v) (auto simp: add_str_def get_referer_def)
  qed
  have none: "\<not> startswith raw_url ''/'' \<longrightarrow> extract_url ui self = Inr u"
  proof
    assume n: "\<not> startswith raw_url ''/''"
    then have "\<not> startswith raw_url ''//''"
      by (cases raw_url) (auto simp: startswith_def)
    with n show "extract_url ui self = Inr u" using res assms(3) by simp
  qed
  show ?thesis
    by (rule conjI [OF frag(1) conjI [OF frag(2) conjI [OF two conjI [OF one none]]]])
qed

text \<open>
  The examples of the specification: \<^verbatim>\<open>//example.com/x\<close> gives
  \<^verbatim>\<open>https://example.com/x\<close>, and \<^verbatim>\<open>/x\<close> with its fragment and the referer
  \<^verbatim>\<open>https://m1.test\<close> gives \<^verbatim>\<open>https://m1.test/x\<close>; without a task or a referer the default
  referer is used. A context that holds \<^verbatim>\<open>None\<close> as its referer gives a \<^verbatim>\<open>TypeError\<close>, and
  \<^verbatim>\<open>paper.pdf#page=2\<close> gives \<^verbatim>\<open>paper.pdf\<close>.
\<close>

theorem extract_url_relative_resolution_witness:
  "extract_url url_information
     (example_extractor (example_soup (Some (pdf_tag_with ''//example.com/x'')) None None None None)
        (Some (example_task (StrV ''https://m1.test''))))
     = Inr ''https://example.com/x''
   \<and> extract_url url_information
     (example_extractor (example_soup (Some (pdf_tag_with ''/x#frag'')) None None None None)
        (Some (example_task (StrV ''https://m1.test''))))
     = Inr ''https://m1.test/x''
   \<and> extract_url url_information
     (example_extractor (example_soup (Some (pdf_tag_with ''/x'')) None None None None) None)
     = Inr ''https://sci-hub.se/x''
   \<and> extract_url url_information
     (example_extractor (example_soup (Some (pdf_tag_with ''/x'')) None None None None)
        (Some \<lparr>context = Map.empty\<rparr>))
     = Inr ''https://sci-hub.se/x''
   \<and> extract_url url_information
     (example_extractor (example_soup (Some (pdf_tag_with ''/x'')) None None None None)
        (Some (example_task NoneV)))
     = Inl TypeError
   \<and> extract_url url_information
     (example_extractor (example_soup (Some (pdf_tag_with ''paper.pdf#page=2'')) None None None None)
        (Some (example_task (StrV ''https://m1.test''))))
     = Inr ''paper.pdf''"
proof -
  let ?sp = "\<lambda>raw. example_soup (Some (pdf_tag_with raw)) None None None None"
  let ?t = "example_task (StrV ''https://m1.test'')"
  have a: "extract_url url_information (example_extractor (?sp ''//example.com/x'') (Some ?t))
             = Inr ''https://example.com/x''"
    using extract_url_relative_resolution
      [where self = "example_extractor (?sp ''//example.com/x'') (Some ?t)"
         and ui = url_information and pdf_tag = "pdf_tag_with ''//example.com/x''"
         and raw_url = "''//example.com/x''" and u = "''//example.com/x''"]
    by (simp add: ex_defs startswith_def)
  have b: "extract_url url_information (example_extractor (?sp ''/x#frag'') (Some ?t))
             = Inr ''https://m1.test/x''"
    using extract_url_relative_resolution
      [where self = "example_extractor (?sp ''/x#frag'') (Some ?t)"
         and ui = url_information and pdf_tag = "pdf_tag_with ''/x#frag''"
         and raw_url = "''/x#frag''" and u = "''/x''"]
    by (simp add: ex_defs startswith_def)
  have c: "extract_url url_information (example_extractor (?sp ''/x'') None)
             = Inr ''https://sci-hub.se/x''"
    using extract_url_relative_resolution
      [where self = "example_extractor (?sp ''/x'') None"
         and ui = url_information and pdf_tag = "pdf_tag_with ''/x''"
         and raw_url = "''/x''" and u = "''/x''"]
    by (simp add: ex_defs startswith_def)
  have d: "extract_url url_information
             (example_extractor (?sp ''/x'') (Some \<lparr>context = Map.empty\<rparr>))
             = Inr ''https://sci-hub.se/x''"
    using extract_url_relative_resolution
      [where self = "example_extractor (?sp ''/x'') (Some \<lparr>context = Map.empty\<rparr>)"
         and ui = url_information and pdf_tag = "pdf_tag_with ''/x''"
         and raw_url = "''/x''" and u = "''/x''"]
    by (simp add: ex_defs startswith_def)
  have e: "extract_url url_information (example_extractor (?sp ''/x'') (Some (example_task NoneV)))
             = Inl TypeError"
    using extract_url_relative_resolution
      [where self = "example_extractor (?sp ''/x'') (Some (example_task NoneV))"
         and ui = url_information and pdf_tag = "pdf_tag_with ''/x''"
         and raw_url = "''/x''" and u = "''/x''"]
    by (simp add: ex_defs startswith_def)
  have f: "extract_url url_information (example_extractor (?sp ''paper.pdf#page=2'') (Some ?t))
             = Inr ''paper.pdf''"
    using extract_url_relative_resolution
      [where self = "example_extractor (?sp ''paper.pdf#page=2'') (Some ?t)"
         and ui = url_information and pdf_tag = "pdf_tag_with ''paper.pdf#page=2''"
         and raw_url = "''paper.pdf#page=2''" and u = "''paper.pdf''"]
    by (simp add: ex_defs startswith_def)
  from a b c d e f show ?thesis by simp
qed

text \<open>
  Claim C1 as stated does not hold: the raw value \<^verbatim>\<open>paper.pdf\<close> contains no protocol prefix
  and starts with no slash, and \<^verbatim>\<open>_extract_url\<close> returns it as it is.
\<close>

theorem extract_url_relative_counterexample:
  "extract_url url_information
     (example_extractor (example_soup (Some (pdf_tag_with ''paper.pdf'')) None None None None)
        (Some (example_task (StrV ''https://m1.test''))))
     = Inr ''paper.pdf''
   \<and> \<not> absolute_by_construction url_information ''https://m1.test'' ''paper.pdf'' ''paper.pdf''"
  by (simp add: extract_url_def extract_raw_url_def ex_defs startswith_def getitem_def
      absolute_by_construction_def)

text \<open>
  Claim C1, amended. A string \<open>r\<close> that \<^verbatim>\<open>_extract_url\<close> returns comes from the raw value
  \<open>raw_url\<close> of the matched tag in one of four ways, \<open>u\<close> being the raw value cut at its
  first \<^verbatim>\<open>#\<close>: the raw value contains a recognized protocol prefix and is returned
  unchanged; it starts with two slashes and \<open>r\<close> is the default protocol prefix followed by
  \<open>u\<close> without the two slashes; it starts with one slash and \<open>r\<close> is the referer followed
  by \<open>u\<close>; or it starts with no slash and \<open>r\<close> is \<open>u\<close>, which no scheme is added to. In
  the first three cases \<open>r\<close> contains a recognized protocol prefix, provided the default
  protocol prefix is a recognized one and the referer contains one.
\<close>

theorem extract_url_result_shape:
  assumes "extract_url ui self = Inr r"
  shows "\<exists>pdf_tag raw_url u.
           select_one (content self) (pdf_tag_selector self) = Some pdf_tag
         \<and> attrs pdf_tag (pdf_tag_attr self) = Some raw_url
         \<and> u = takeWhile (\<lambda>c. c \<noteq> CHR ''#'') raw_url
         \<and> ((has_protocol_prefix (PROTOCOL_PREFIXES ui) raw_url \<and> r = raw_url)
            \<or> (\<not> has_protocol_prefix (PROTOCOL_PREFIXES ui) raw_url
                \<and> startswith raw_url ''//'' \<and> r = DEFAULT_PROTOCOL_PREFIX ui @ drop 2 u)
            \<or> (\<not> has_protocol_prefix (PROTOCOL_PREFIXES ui) raw_url
                \<and> startswith raw_url ''/'' \<and> \<not> startswith raw_url ''//''
                \<and> (\<exists>referer. get_referer self = StrV referer \<and> r = referer @ u))
            \<or> (\<not> has_protocol_prefix (PROTOCOL_PREFIXES ui) raw_url
                \<and> \<not> startswith raw_url ''/'' \<and> r = u))
         \<and> ((has_protocol_prefix (PROTOCOL_PREFIXES ui) raw_url \<or> startswith raw_url ''/'')
              \<and> DEFAULT_PROTOCOL_PREFIX ui \<in> set (PROTOCOL_PREFIXES ui)
              \<and> (\<forall>referer. get_referer self = StrV referer \<longrightarrow>
                    has_protocol_prefix (PROTOCOL_PREFIXES ui) referer)
              \<longrightarrow> has_protocol_prefix (PROTOCOL_PREFIXES ui) r)"
proof -
  from assms obtain raw_url where raw: "extract_raw_url self = Inr raw_url"
    by (cases "extract_raw_url self") (auto simp: extract_url_def)
  then obtain pdf_tag where
    tag: "select_one (content self) (pdf_tag_selector self) = Some pdf_tag"
      "attrs pdf_tag (pdf_tag_attr self) = Some raw_url"
    using extract_raw_url_Inr by blast
  define u where "u = takeWhile (\<lambda>c. c \<noteq> CHR ''#'') raw_url"
  let ?pp = "has_protocol_prefix (PROTOCOL_PREFIXES ui)"
  note res = extract_url_resolved [OF raw u_def, of ui]
  have two: "startswith raw_url ''//'' \<Longrightarrow> startswith raw_url ''/''"
    by (cases raw_url) (auto simp: startswith_def)
  have shape:
    "(?pp raw_url \<and> r = raw_url)
     \<or> (\<not> ?pp raw_url \<and> startswith raw_url ''//'' \<and> r = DEFAULT_PROTOCOL_PREFIX ui @ drop 2 u)
     \<or> (\<not> ?pp raw_url \<and> startswith raw_url ''/'' \<and> \<not> startswith raw_url ''//''
          \<and> (\<exists>referer. get_referer self = StrV referer \<and> r = referer @ u))
     \<or> (\<not> ?pp raw_url \<and> \<not> startswith raw_url ''/'' \<and> r = u)"
    using res assms two
    by (cases "get_referer self") (auto simp: add_str_def split: if_splits)
  have absolute:
    "(?pp raw_url \<or> startswith raw_url ''/'')
       \<and> DEFAULT_PROTOCOL_PREFIX ui \<in> set (PROTOCOL_PREFIXES ui)
       \<and> (\<forall>referer. get_referer self = StrV referer \<longrightarrow> ?pp referer)
     \<longrightarrow> ?pp r"
    using shape has_protocol_prefix_append has_protocol_prefix_member by blast
  from tag u_def shape absolute show ?thesis by blast
qed

text \<open>A value starting with one slash, resolved against the referer of the task.\<close>

theorem extract_url_result_shape_witness:
  "extract_url url_information
     (example_extractor (example_soup (Some (pdf_tag_with ''/downloads/a.pdf#view'')) None None None None)
        (Some (example_task (StrV ''https://m1.test''))))
     = Inr ''https://m1.test/downloads/a.pdf''
   \<and> has_protocol_prefix (PROTOCOL_PREFIXES url_information) ''https://m1.test/downloads/a.pdf''"
proof -
  let ?self = "example_extractor
      (example_soup (Some (pdf_tag_with ''/downloads/a.pdf#view'')) None None None None)
      (Some (example_task (StrV ''https://m1.test'')))"
  have h: "extract_url url_information ?self = Inr ''https://m1.test/downloads/a.pdf''"
    by (simp add: run_defs ex_defs)
  have sel: "select_one (content ?self) (pdf_tag_selector ?self)
               = Some (pdf_tag_with ''/downloads/a.pdf#view'')"
    by (simp add: ex_defs)
  have ref: "get_referer ?self = StrV ''https://m1.test''"
    by (simp add: get_referer_def ex_defs)
  have pp: "has_protocol_prefix (PROTOCOL_PREFIXES url_information) ''https://m1.test''"
    by (simp add: url_information_def startswith_def)
  from extract_url_result_shape [OF h] obtain pdf_tag raw_url where
    tag: "select_one (content ?self) (pdf_tag_selector ?self) = Some pdf_tag"
      "attrs pdf_tag (pdf_tag_attr ?self) = Some raw_url"
    and absolute: "(has_protocol_prefix (PROTOCOL_PREFIXES url_information) raw_url
                      \<or> startswith raw_url ''/'')
            \<and> DEFAULT_PROTOCOL_PREFIX url_information \<in> set (PROTOCOL_PREFIXES url_information)
            \<and> (\<forall>referer. get_referer ?self = StrV referer \<longrightarrow>
                  has_protocol_prefix (PROTOCOL_PREFIXES url_information) referer)
            \<longrightarrow> has_protocol_prefix (PROTOCOL_PREFIXES url_information)
                  ''https://m1.test/downloads/a.pdf''"
    by blast
  from tag sel have "raw_url = ''/downloads/a.pdf#view''"
    by (auto simp: ex_defs)
  then have "startswith raw_url ''/''" by (simp add: startswith_def)
  moreover have "DEFAULT_PROTOCOL_PREFIX url_information \<in> set (PROTOCOL_PREFIXES url_information)"
    by (simp add: url_information_def)
  ultimately have "has_protocol_prefix (PROTOCOL_PREFIXES url_information)
      ''https://m1.test/downloads/a.pdf''"
    using absolute ref pp by simp
  with h show ?thesis by (rule conjI)
qed

section \<open>Title extraction\<close>

lemma blank_iff: "blank t \<longleftrightarrow> (\<forall>c \<in> set t. isspace c)"
  by (simp add: blank_def strip_empty_iff)

lemma blank_Nil: "blank []"
  by (simp add: blank_def strip_Nil)

lemma clean_title_Nil: "clean_title [] = []"
  by (simp add: clean_title_def)

lemma clean_title_map:
  "clean_title t = strip (take 200 (map (\<lambda>c. if c \<in> set rstr then CHR '' '' else c) t))"
proof (cases "t = []")
  case True
  then show ?thesis by (simp add: clean_title_Nil strip_Nil)
next
  case False
  then show ?thesis by (simp add: clean_title_def re_sub_map)
qed

lemma clean_title_empty:
  assumes "\<forall>c \<in> set t. isspace c \<or> c \<in> set rstr"
  shows "clean_title t = []"
proof -
  let ?m = "map (\<lambda>c. if c \<in> set rstr then CHR '' '' else c) t"
  have "isspace CHR '' ''" by (simp add: isspace_def)
  then have "\<forall>c \<in> set ?m. isspace c" using assms by auto
  then have "\<forall>c \<in> set (take 200 ?m). isspace c" by (meson in_set_takeD)
  then show ?thesis unfolding clean_title_map by (rule strip_all_space)
qed

lemma clean_title_blank: "blank t \<Longrightarrow> clean_title t = []"
  by (rule clean_title_empty) (simp add: blank_iff)

lemma length_clean_title: "length (clean_title t) \<le> 200"
proof -
  have "length (clean_title t) \<le> length (take 200 (map (\<lambda>c. if c \<in> set rstr then CHR '' '' else c) t))"
    unfolding clean_title_map by (rule length_strip)
  then show ?thesis by simp
qed

lemma set_clean_title: "set (clean_title t) \<inter> set rstr = {}"
proof -
  let ?m = "map (\<lambda>c. if c \<in> set rstr then CHR '' '' else c) t"
  have "set ?m \<inter> set rstr = {}" by (auto simp: rstr_def)
  moreover have "set (clean_title t) \<subseteq> set ?m"
    unfolding clean_title_map using set_strip set_take_subset by (rule subset_trans)
  ultimately show ?thesis by blast
qed

lemma title_method1:
  "(case title sp of
      None \<Rightarrow> Inr []
    | Some soup_title \<Rightarrow>
        if length (get_text soup_title) > 0 then
          (if CHR ''|'' \<in> set (get_text soup_title)
           then getitem (split CHR ''|'' (get_text soup_title)) 1
           else Inr (get_text soup_title))
        else Inr []) = Inr (title_element_text sp)"
  by (auto simp: title_element_text_def getitem_split_1 [unfolded One_nat_def] split: option.splits)

lemma extract_title_eq:
  "extract_title self =
     Inr (clean_title
       (let sp = content self;
            t1 = title_element_text sp;
            t2 = (if blank t1 then
                    (case find_tag sp ''h1'' [] of None \<Rightarrow> t1 | Some h1 \<Rightarrow> get_text h1)
                  else t1)
        in if blank t2 then
             (case (case find_tag sp ''meta'' [(''name'', ''citation_title'')] of
                      Some m \<Rightarrow> Some m
                    | None \<Rightarrow> find_tag sp ''meta'' [(''property'', ''og:title'')]) of
                None \<Rightarrow> t2
              | Some meta_title \<Rightarrow>
                  (case attrs meta_title ''content'' of None \<Rightarrow> t2 | Some c \<Rightarrow> c))
           else t2))"
  unfolding extract_title_def Let_def title_method1 blank_def by simp

lemma extract_title_total: "\<exists>t. extract_title self = Inr t"
  using extract_title_eq by blast

text \<open>
  Claim C7. \<^verbatim>\<open>_clean_title\<close> replaces each of the characters / \ : * ? " < > | by a
  space, character for character, keeps the first 200 characters and strips white space
  at both ends. The result has at most 200 characters, contains none of the nine
  characters and neither starts nor ends with white space. A title made of white space
  and the nine characters only is cleaned to the empty string, which is returned as a
  result: title extraction returns for every page.
\<close>

theorem clean_title_replace_truncate_trim:
  "clean_title t =
     strip (take 200 (map (\<lambda>c. if c \<in> {CHR ''/'', CHR 0x5C, CHR '':'', CHR ''*'', CHR ''?'',
                                          CHR 0x22, CHR ''<'', CHR ''>'', CHR ''|''}
                                then CHR '' '' else c) t))
   \<and> length (clean_title t) \<le> 200
   \<and> set (clean_title t) \<inter> {CHR ''/'', CHR 0x5C, CHR '':'', CHR ''*'', CHR ''?'',
                              CHR 0x22, CHR ''<'', CHR ''>'', CHR ''|''} = {}
   \<and> (clean_title t = []
        \<or> \<not> isspace (hd (clean_title t)) \<and> \<not> isspace (last (clean_title t)))
   \<and> ((\<forall>c \<in> set t. isspace c \<or> c \<in> {CHR ''/'', CHR 0x5C, CHR '':'', CHR ''*'', CHR ''?'',
                                          CHR 0x22, CHR ''<'', CHR ''>'', CHR ''|''})
        \<longrightarrow> clean_title t = [])
   \<and> (\<forall>self. \<exists>result. extract_title self = Inr result)"
proof -
  have r: "set rstr = {CHR ''/'', CHR 0x5C, CHR '':'', CHR ''*'', CHR ''?'',
                      CHR 0x22, CHR ''<'', CHR ''>'', CHR ''|''}"
    by (simp add: rstr_def)
  have ends: "clean_title t = []
      \<or> \<not> isspace (hd (clean_title t)) \<and> \<not> isspace (last (clean_title t))"
    unfolding clean_title_map using strip_ends by blast
  show ?thesis
    using clean_title_map [of t] length_clean_title [of t] set_clean_title [of t] ends
      clean_title_empty [of t] extract_title_total
    unfolding r by blast
qed

text \<open>The example of the specification, an all-empty result and a long title.\<close>

theorem clean_title_replace_truncate_trim_witness:
  "clean_title ''My/Title:Here'' = ''My Title Here''
   \<and> clean_title '' /:*?<>| '' = []
   \<and> length (clean_title (replicate 150 CHR ''a'' @ ''/'' @ replicate 150 CHR ''b'')) \<le> 200"
proof -
  let ?rstr = "{CHR ''/'', CHR 0x5C, CHR '':'', CHR ''*'', CHR ''?'', CHR 0x22, CHR ''<'', CHR ''>'',
                CHR ''|''}"
  note th = clean_title_replace_truncate_trim
  have "clean_title ''My/Title:Here''
          = strip (take 200 (map (\<lambda>c. if c \<in> ?rstr then CHR '' '' else c) ''My/Title:Here''))"
    using th [of "''My/Title:Here''"] by blast
  then have a: "clean_title ''My/Title:Here'' = ''My Title Here''"
    by (simp add: strip_def rstrip_def isspace_def)
  have "\<forall>c \<in> set '' /:*?<>| ''. isspace c \<or> c \<in> ?rstr"
    by (simp add: isspace_def)
  then have b: "clean_title '' /:*?<>| '' = []"
    using th [of "'' /:*?<>| ''"] by blast
  have c: "length (clean_title (replicate 150 CHR ''a'' @ ''/'' @ replicate 150 CHR ''b'')) \<le> 200"
    using th [of "replicate 150 CHR ''a'' @ ''/'' @ replicate 150 CHR ''b''"] by blast
  from a b c show ?thesis by simp
qed

text \<open>
  Claim C6 as stated does not hold: on a page with no title element, no level-1 heading,
  a \<^verbatim>\<open>citation_title\<close> meta element with empty content and an \<^verbatim>\<open>og:title\<close> meta element
  with content, every method before the fourth gives empty text and yet the fourth is not
  tried: the extracted title is empty.
\<close>

theorem extract_title_meta_counterexample:
  "extract_title
     (example_extractor
        (example_soup None None None (Some (meta_tag [])) (Some (meta_tag ''Open Graph Title'')))
        None) = Inr []
   \<and> title_by_priority
        (example_soup None None None (Some (meta_tag [])) (Some (meta_tag ''Open Graph Title'')))
       = ''Open Graph Title''"
  by (simp add: run_defs ex_defs title_by_priority_def title_element_text_def h1_text_def
      meta_content_def blank_def)

text \<open>
  Claim C6, amended. \<^verbatim>\<open>_extract_title\<close> returns the cleaned text of the first of these
  that applies: the text of the title element (the segment after its first bar when it
  has one) when that is not blank; else the text of the first level-1 heading when that is
  not blank; else the content of the \<^verbatim>\<open>citation_title\<close> meta element when the page has
  such an element; else, the page having no \<^verbatim>\<open>citation_title\<close> meta element, the content
  of the \<^verbatim>\<open>og:title\<close> meta element. When the page has no \<^verbatim>\<open>citation_title\<close> meta element
  or that element's content is not blank, the result is the first-success title of the
  specification.
\<close>

theorem extract_title_priority:
  assumes "sp = content self"
    and "t1 = title_element_text sp"
    and "t2 = h1_text sp"
    and "cit = find_tag sp ''meta'' [(''name'', ''citation_title'')]"
  shows "(\<not> blank t1 \<longrightarrow> extract_title self = Inr (clean_title t1))
       \<and> (blank t1 \<and> \<not> blank t2 \<longrightarrow> extract_title self = Inr (clean_title t2))
       \<and> (blank t1 \<and> blank t2 \<and> cit \<noteq> None \<longrightarrow>
            extract_title self = Inr (clean_title (meta_content sp ''name'' ''citation_title'')))
       \<and> (blank t1 \<and> blank t2 \<and> cit = None \<longrightarrow>
            extract_title self = Inr (clean_title (meta_content sp ''property'' ''og:title'')))
       \<and> (cit = None \<or> \<not> blank (meta_content sp ''name'' ''citation_title'') \<longrightarrow>
            extract_title self = Inr (title_by_priority sp))"
proof -
  have nb1: "\<not> blank t1 \<longrightarrow> extract_title self = Inr (clean_title t1)"
    using assms by (simp add: extract_title_eq Let_def)
  have nb2: "blank t1 \<and> \<not> blank t2 \<longrightarrow> extract_title self = Inr (clean_title t2)"
    using assms
    by (auto simp: extract_title_eq Let_def h1_text_def blank_def strip_def rstrip_def
        split: option.splits)
  have b2: "blank t1 \<and> blank t2 \<Longrightarrow>
     blank (if blank t1 then (case find_tag sp ''h1'' [] of None \<Rightarrow> t1 | Some h1 \<Rightarrow> get_text h1)
            else t1)"
    using assms(3) by (auto simp: h1_text_def split: option.splits)
  have c3: "blank t1 \<and> blank t2 \<and> cit \<noteq> None \<longrightarrow>
      extract_title self = Inr (clean_title (meta_content sp ''name'' ''citation_title''))"
    using assms b2
    by (auto simp: extract_title_eq Let_def meta_content_def clean_title_blank clean_title_Nil
        split: option.splits)
  have c4: "blank t1 \<and> blank t2 \<and> cit = None \<longrightarrow>
      extract_title self = Inr (clean_title (meta_content sp ''property'' ''og:title''))"
    using assms b2
    by (auto simp: extract_title_eq Let_def meta_content_def clean_title_blank clean_title_Nil
        split: option.splits)
  have c5: "cit = None \<or> \<not> blank (meta_content sp ''name'' ''citation_title'') \<longrightarrow>
      extract_title self = Inr (title_by_priority sp)"
  proof (cases "blank t1")
    case False
    then show ?thesis using nb1 assms(2) by (simp add: title_by_priority_def)
  next
    case b1: True
    show ?thesis
    proof (cases "blank t2")
      case False
      then show ?thesis using nb2 b1 assms(2,3) by (simp add: title_by_priority_def)
    next
      case True
      show ?thesis
      proof (cases "cit = None")
        case True
        then show ?thesis
          using c4 b1 \<open>blank t2\<close> assms(2,3,4)
          by (auto simp: title_by_priority_def meta_content_def clean_title_blank clean_title_Nil blank_Nil)
      next
        case False
        then show ?thesis
          using c3 b1 \<open>blank t2\<close> assms(2,3)
          by (auto simp: title_by_priority_def)
      qed
    qed
  qed
  show ?thesis
    by (rule conjI [OF nb1 conjI [OF nb2 conjI [OF c3 conjI [OF c4 c5]]]])
qed

text \<open>
  One page for each method: the title \<^verbatim>\<open>Foo Bar | Great Journal\<close> gives \<^verbatim>\<open>Great Journal\<close>,
  an empty title with a level-1 heading gives the heading, then the two meta elements.
\<close>

theorem extract_title_priority_witness:
  "extract_title
     (example_extractor
        (example_soup None (Some (text_tag ''Foo Bar | Great Journal'')) (Some (text_tag ''Heading''))
           (Some (meta_tag ''Citation'')) (Some (meta_tag ''Open Graph''))) None)
     = Inr ''Great Journal''
   \<and> extract_title
     (example_extractor
        (example_soup None (Some (text_tag [])) (Some (text_tag ''Fallback Title''))
           (Some (meta_tag ''Citation'')) (Some (meta_tag ''Open Graph''))) None)
     = Inr ''Fallback Title''
   \<and> extract_title
     (example_extractor
        (example_soup None None (Some (text_tag '' ''))
           (Some (meta_tag ''Citation'')) (Some (meta_tag ''Open Graph''))) None)
     = Inr ''Citation''
   \<and> extract_title
     (example_extractor
        (example_soup None None None None (Some (meta_tag ''Open Graph''))) None)
     = Inr ''Open Graph''"
proof -
  let ?ex = "\<lambda>ttl h1 cit og. example_extractor (example_soup None ttl h1 cit og) None"
  let ?c = "Some (meta_tag ''Citation'')"
  let ?o = "Some (meta_tag ''Open Graph'')"
  have sp: "\<And>ttl h1 cit og. content (?ex ttl h1 cit og) = example_soup None ttl h1 cit og"
    by (simp add: example_extractor_def init_def)
  have a: "extract_title (?ex (Some (text_tag ''Foo Bar | Great Journal'')) (Some (text_tag ''Heading'')) ?c ?o)
             = Inr ''Great Journal''"
    using extract_title_priority [OF sp [symmetric] refl refl refl]
    by (simp add: title_element_text_def example_soup_def text_tag_def blank_def clean_title_def
        strip_def rstrip_def isspace_def rstr_def)
  have b: "extract_title (?ex (Some (text_tag [])) (Some (text_tag ''Fallback Title'')) ?c ?o)
             = Inr ''Fallback Title''"
    using extract_title_priority [OF sp [symmetric] refl refl refl]
    by (simp add: title_element_text_def h1_text_def example_soup_def text_tag_def blank_def
        clean_title_def strip_def rstrip_def isspace_def rstr_def)
  have c: "extract_title (?ex None (Some (text_tag '' '')) ?c ?o) = Inr ''Citation''"
    using extract_title_priority [OF sp [symmetric] refl refl refl]
    by (simp add: title_element_text_def h1_text_def meta_content_def example_soup_def text_tag_def
        meta_tag_def blank_def clean_title_def strip_def rstrip_def isspace_def rstr_def)
  have d: "extract_title (?ex None None None ?o) = Inr ''Open Graph''"
    using extract_title_priority [OF sp [symmetric] refl refl refl]
    by (simp add: title_element_text_def h1_text_def meta_content_def example_soup_def text_tag_def
        meta_tag_def blank_def clean_title_def strip_def rstrip_def isspace_def rstr_def)
  from a b c d show ?thesis by simp
qed

section \<open>Outcomes of extract\<close>

lemma try_extract_Inl:
  "try_extract ui self = Inl e \<longleftrightarrow> extract_url ui self = Inl e"
proof -
  obtain t where "extract_title self = Inr t" using extract_title_total by blast
  then show ?thesis by (cases "extract_url ui self") (auto simp: try_extract_def)
qed

lemma try_extract_Inl_source:
  "try_extract ui self = Inl e \<longleftrightarrow>
     extract_url ui self = Inl e
     \<or> (\<exists>u. extract_url ui self = Inr u \<and> extract_title self = Inl e)"
  by (auto simp: try_extract_def split: sum.splits)

lemma fst_extract_info:
  "fst (extract_info ui self) =
     (case try_extract ui self of Inl e \<Rightarrow> Inl (ExtractException e) | Inr info \<Rightarrow> Inr info)"
  by (simp add: extract_info_def split: sum.splits)

lemma snd_extract_info_Inr:
  assumes "try_extract ui self = Inr info"
  shows "snd (extract_info ui self) =
     (case task self of
        None \<Rightarrow> self
      | Some t \<Rightarrow> self\<lparr>task := Some (t\<lparr>context := (context t)(''info'' \<mapsto> InfoV info)\<rparr>)\<rparr>)"
  using assms by (simp add: extract_info_def)

lemma snd_extract_info_Inl:
  assumes "try_extract ui self = Inl e"
  shows "snd (extract_info ui self) =
     (case task self of
        None \<Rightarrow> self
      | Some t \<Rightarrow>
          self\<lparr>task := Some (t\<lparr>context := (context t)(''status'' \<mapsto> StrV ''extracting_failed'',
                                                      ''error'' \<mapsto> ExnV e)\<rparr>),
               service := service self
                 @ [IncrementFailedTimes (case context t ''referer'' of None \<Rightarrow> NoneV | Some v \<Rightarrow> v)]\<rparr>)"
  using assms by (simp add: extract_info_def increment_failed_times_def Let_def split: option.splits)

text \<open>
  Claim C3. \<^verbatim>\<open>extract\<close> raises an \<^verbatim>\<open>ExtractException\<close> made from a
  \<^verbatim>\<open>PdfTagNotFoundException\<close> exactly when no element matches the configured selector, and
  one made from a \<^verbatim>\<open>PdfUrlNotFoundException\<close> exactly when the first matching element has
  no value for the configured attribute.
\<close>

theorem extract_structural_failures:
  "((\<exists>msg. fst (extract_info ui self) = Inl (ExtractException (PdfTagNotFoundException msg)))
      \<longleftrightarrow> select_one (content self) (pdf_tag_selector self) = None)
   \<and> ((\<exists>msg. fst (extract_info ui self) = Inl (ExtractException (PdfUrlNotFoundException msg)))
      \<longleftrightarrow> (\<exists>pdf_tag. select_one (content self) (pdf_tag_selector self) = Some pdf_tag
                \<and> attrs pdf_tag (pdf_tag_attr self) = None))"
proof -
  have raised: "\<And>e. fst (extract_info ui self) = Inl (ExtractException e)
                  \<longleftrightarrow> extract_url ui self = Inl e"
    by (auto simp: fst_extract_info try_extract_Inl [symmetric] split: sum.splits)
  have tag: "(\<exists>msg. extract_url ui self = Inl (PdfTagNotFoundException msg))
      \<longleftrightarrow> select_one (content self) (pdf_tag_selector self) = None"
    by (auto simp: extract_url_Inl extract_raw_url_Inl)
  have attr: "(\<exists>msg. extract_url ui self = Inl (PdfUrlNotFoundException msg))
      \<longleftrightarrow> (\<exists>pdf_tag. select_one (content self) (pdf_tag_selector self) = Some pdf_tag
                \<and> attrs pdf_tag (pdf_tag_attr self) = None)"
    by (auto simp: extract_url_Inl extract_raw_url_Inl)
  show ?thesis unfolding raised using tag attr by (rule conjI)
qed

text \<open>A page without the tag, a page whose tag lacks the attribute, and a page with both.\<close>

theorem extract_structural_failures_witness:
  "fst (extract_info url_information
          (example_extractor (example_soup None None None None None) None))
     = Inl (ExtractException (PdfTagNotFoundException
         ''No pdf tag was found in the given content with the selector: #pdf''))
   \<and> fst (extract_info url_information
          (example_extractor (example_soup (Some (text_tag ''view'')) None None None None) None))
     = Inl (ExtractException (PdfUrlNotFoundException
         ''No pdf url was found in the pdf tag: view with the attr src''))
   \<and> (\<nexists>msg. fst (extract_info url_information
          (example_extractor (example_soup (Some (pdf_tag_with ''/x'')) None None None None) None))
        = Inl (ExtractException (PdfTagNotFoundException msg)))"
proof -
  let ?ex = "\<lambda>pdf. example_extractor (example_soup pdf None None None None) None"
  have a: "fst (extract_info url_information (?ex None))
     = Inl (ExtractException (PdfTagNotFoundException
         ''No pdf tag was found in the given content with the selector: #pdf''))"
    by (simp add: run_defs ex_defs)
  have b: "fst (extract_info url_information (?ex (Some (text_tag ''view''))))
     = Inl (ExtractException (PdfUrlNotFoundException
         ''No pdf url was found in the pdf tag: view with the attr src''))"
    by (simp add: run_defs ex_defs)
  have "select_one (content (?ex (Some (pdf_tag_with ''/x''))))
          (pdf_tag_selector (?ex (Some (pdf_tag_with ''/x'')))) \<noteq> None"
    by (simp add: ex_defs)
  then have c: "\<nexists>msg. fst (extract_info url_information (?ex (Some (pdf_tag_with ''/x''))))
        = Inl (ExtractException (PdfTagNotFoundException msg))"
    using extract_structural_failures [of url_information "?ex (Some (pdf_tag_with ''/x''))"]
    by simp
  from a b c show ?thesis by blast
qed

text \<open>
  Claim C2. When \<^verbatim>\<open>extract\<close> raises on an extractor with a task, what it raises is an
  \<^verbatim>\<open>ExtractException\<close> made from the exception \<open>e\<close> of the URL or title extraction, and
  the call leaves the context with status \<^verbatim>\<open>extracting_failed\<close> and error \<open>e\<close>, and the
  health store with one more call: \<^verbatim>\<open>increment_failed_times\<close> on the referer of the
  context. Nothing else of the extractor changes.
\<close>

theorem extract_failure_recorded:
  assumes "task self = Some t"
    and "fst (extract_info ui self) = Inl x"
  shows "\<exists>e. x = ExtractException e
           \<and> (extract_url ui self = Inl e \<or> extract_title self = Inl e)
           \<and> snd (extract_info ui self) =
               self\<lparr>task := Some (t\<lparr>context := (context t)(''status'' \<mapsto> StrV ''extracting_failed'',
                                                          ''error'' \<mapsto> ExnV e)\<rparr>),
                    service := service self
                      @ [IncrementFailedTimes
                           (case context t ''referer'' of None \<Rightarrow> NoneV | Some v \<Rightarrow> v)]\<rparr>"
proof -
  from assms(2) obtain e where e: "try_extract ui self = Inl e" "x = ExtractException e"
    by (auto simp: fst_extract_info split: sum.splits)
  from e(1) have "extract_url ui self = Inl e \<or> extract_title self = Inl e"
    by (auto simp: try_extract_Inl_source)
  moreover note snd_extract_info_Inl [OF e(1)]
  ultimately show ?thesis using e(2) assms(1) by simp
qed

text \<open>A page without the tag, extracted for a task with the referer \<^verbatim>\<open>https://m1.test\<close>.\<close>

theorem extract_failure_recorded_witness:
  "fst (extract_info url_information
          (example_extractor (example_soup None None None None None)
             (Some (example_task (StrV ''https://m1.test'')))))
     = Inl (ExtractException (PdfTagNotFoundException
         ''No pdf tag was found in the given content with the selector: #pdf''))
   \<and> (\<exists>t'. task (snd (extract_info url_information
          (example_extractor (example_soup None None None None None)
             (Some (example_task (StrV ''https://m1.test'')))))) = Some t'
        \<and> context t' ''status'' = Some (StrV ''extracting_failed'')
        \<and> context t' ''error'' = Some (ExnV (PdfTagNotFoundException
             ''No pdf tag was found in the given content with the selector: #pdf''))
        \<and> context t' ''referer'' = Some (StrV ''https://m1.test''))
   \<and> service (snd (extract_info url_information
          (example_extractor (example_soup None None None None None)
             (Some (example_task (StrV ''https://m1.test''))))))
     = [IncrementFailedTimes (StrV ''https://m1.test'')]"
proof -
  let ?t = "example_task (StrV ''https://m1.test'')"
  let ?t' = "?t\<lparr>context := (context ?t)(''status'' \<mapsto> StrV ''extracting'')\<rparr>"
  let ?self = "example_extractor (example_soup None None None None None) (Some ?t)"
  let ?e = "PdfTagNotFoundException
    ''No pdf tag was found in the given content with the selector: #pdf''"
  have tk: "task ?self = Some ?t'" by (simp add: example_extractor_def init_def)
  have raised: "fst (extract_info url_information ?self) = Inl (ExtractException ?e)"
    by (simp add: run_defs ex_defs)
  from extract_failure_recorded [OF tk raised]
  have st: "snd (extract_info url_information ?self) =
      ?self\<lparr>task := Some (?t'\<lparr>context := (context ?t')(''status'' \<mapsto> StrV ''extracting_failed'',
                                                          ''error'' \<mapsto> ExnV ?e)\<rparr>),
            service := service ?self
              @ [IncrementFailedTimes (case context ?t' ''referer'' of None \<Rightarrow> NoneV | Some v \<Rightarrow> v)]\<rparr>"
    by auto
  have svc: "service ?self = []" by (simp add: example_extractor_def init_def)
  have ref: "context ?t' ''referer'' = Some (StrV ''https://m1.test'')"
    by (simp add: example_task_def)
  show ?thesis unfolding st using raised svc ref by simp
qed

text \<open>
  Claim C8. When \<^verbatim>\<open>extract\<close> returns an information, the health store has received no
  call, an extractor without a task is unchanged, and the context of a task differs from
  the one before at the key \<^verbatim>\<open>info\<close> only, which holds the information returned.
\<close>

theorem extract_success_frame:
  assumes "fst (extract_info ui self) = Inr info"
  shows "service (snd (extract_info ui self)) = service self
       \<and> (task self = None \<longrightarrow> snd (extract_info ui self) = self)
       \<and> (\<forall>t. task self = Some t \<longrightarrow>
            snd (extract_info ui self)
              = self\<lparr>task := Some (t\<lparr>context := (context t)(''info'' \<mapsto> InfoV info)\<rparr>)\<rparr>
            \<and> (\<exists>t'. task (snd (extract_info ui self)) = Some t'
                  \<and> context t' ''info'' = Some (InfoV info)
                  \<and> (\<forall>k. k \<noteq> ''info'' \<longrightarrow> context t' k = context t k)))"
proof -
  from assms have "try_extract ui self = Inr info"
    by (auto simp: fst_extract_info split: sum.splits)
  note s = snd_extract_info_Inr [OF this]
  show ?thesis unfolding s by (auto split: option.splits)
qed

text \<open>The landing page of the specification's end-to-end example.\<close>

theorem extract_success_frame_witness:
  "fst (extract_info url_information
          (example_extractor
             (example_soup (Some (pdf_tag_with ''/downloads/a.pdf''))
                (Some (text_tag ''Paper Title | Journal'')) None None None)
             (Some (example_task (StrV ''https://m1.test'')))))
     = Inr (PdfUrlTitleInformation ''https://m1.test/downloads/a.pdf'' ''Journal'')
   \<and> (\<exists>t'. task (snd (extract_info url_information
          (example_extractor
             (example_soup (Some (pdf_tag_with ''/downloads/a.pdf''))
                (Some (text_tag ''Paper Title | Journal'')) None None None)
             (Some (example_task (StrV ''https://m1.test'')))))) = Some t'
        \<and> context t' ''info''
            = Some (InfoV (PdfUrlTitleInformation ''https://m1.test/downloads/a.pdf'' ''Journal''))
        \<and> context t' ''status'' = Some (StrV ''extracting'')
        \<and> context t' ''error'' = None)
   \<and> service (snd (extract_info url_information
          (example_extractor
             (example_soup (Some (pdf_tag_with ''/downloads/a.pdf''))
                (Some (text_tag ''Paper Title | Journal'')) None None None)
             (Some (example_task (StrV ''https://m1.test''))))))
     = []"
proof -
  let ?t = "example_task (StrV ''https://m1.test'')"
  let ?t' = "?t\<lparr>context := (context ?t)(''status'' \<mapsto> StrV ''extracting'')\<rparr>"
  let ?self = "example_extractor
      (example_soup (Some (pdf_tag_with ''/downloads/a.pdf''))
         (Some (text_tag ''Paper Title | Journal'')) None None None) (Some ?t)"
  let ?info = "PdfUrlTitleInformation ''https://m1.test/downloads/a.pdf'' ''Journal''"
  have tk: "task ?self = Some ?t'" by (simp add: example_extractor_def init_def)
  have ok: "fst (extract_info url_information ?self) = Inr ?info"
    by (simp add: run_defs ex_defs)
  note fr = extract_success_frame [OF ok]
  from fr tk have st: "snd (extract_info url_information ?self)
      = ?self\<lparr>task := Some (?t'\<lparr>context := (context ?t')(''info'' \<mapsto> InfoV ?info)\<rparr>)\<rparr>"
    by blast
  from fr have svc: "service (snd (extract_info url_information ?self)) = service ?self"
    by blast
  have svc0: "service ?self = []" by (simp add: example_extractor_def init_def)
  have ctx: "context ?t' ''status'' = Some (StrV ''extracting'')" "context ?t' ''error'' = None"
    by (simp_all add: example_task_def)
  have "\<exists>t'. task (snd (extract_info url_information ?self)) = Some t'
        \<and> context t' ''info'' = Some (InfoV ?info)
        \<and> context t' ''status'' = Some (StrV ''extracting'')
        \<and> context t' ''error'' = None"
    unfolding st using ctx by simp
  with ok svc svc0 show ?thesis by simp
qed

text \<open>
  Claim C10. Whatever \<^verbatim>\<open>extract\<close> raises is an \<^verbatim>\<open>ExtractException\<close>. For every exception
  \<open>e\<close> that the URL extraction or the title extraction raises, of any kind, \<^verbatim>\<open>extract\<close>
  raises the \<^verbatim>\<open>ExtractException\<close> made from \<open>e\<close>; without a task the extractor is
  unchanged, and with a task the context gets the status \<^verbatim>\<open>extracting_failed\<close> and the
  error \<open>e\<close>, and the health store the call \<^verbatim>\<open>increment_failed_times\<close> on the referer.
\<close>

theorem extract_wraps_every_exception:
  "(\<forall>x. fst (extract_info ui self) = Inl x \<longrightarrow> (\<exists>e. x = ExtractException e))
   \<and> (\<forall>e. extract_url ui self = Inl e
            \<or> (\<exists>u. extract_url ui self = Inr u \<and> extract_title self = Inl e) \<longrightarrow>
          fst (extract_info ui self) = Inl (ExtractException e)
          \<and> (task self = None \<longrightarrow> snd (extract_info ui self) = self)
          \<and> (\<forall>t. task self = Some t \<longrightarrow>
                snd (extract_info ui self) =
                  self\<lparr>task := Some (t\<lparr>context := (context t)(''status'' \<mapsto> StrV ''extracting_failed'',
                                                             ''error'' \<mapsto> ExnV e)\<rparr>),
                       service := service self
                         @ [IncrementFailedTimes
                              (case context t ''referer'' of None \<Rightarrow> NoneV | Some v \<Rightarrow> v)]\<rparr>))"
proof (intro conjI allI impI)
  fix x assume "fst (extract_info ui self) = Inl x"
  then show "\<exists>e. x = ExtractException e"
    by (auto simp: fst_extract_info split: sum.splits)
next
  fix e
  assume "extract_url ui self = Inl e
            \<or> (\<exists>u. extract_url ui self = Inr u \<and> extract_title self = Inl e)"
  then have e: "try_extract ui self = Inl e" by (simp add: try_extract_Inl_source)
  show "fst (extract_info ui self) = Inl (ExtractException e)"
    using e by (simp add: fst_extract_info)
  show "snd (extract_info ui self) = self" if "task self = None"
    using snd_extract_info_Inl [OF e] that by simp
  show "snd (extract_info ui self) =
          self\<lparr>task := Some (t\<lparr>context := (context t)(''status'' \<mapsto> StrV ''extracting_failed'',
                                                     ''error'' \<mapsto> ExnV e)\<rparr>),
               service := service self
                 @ [IncrementFailedTimes
                      (case context t ''referer'' of None \<Rightarrow> NoneV | Some v \<Rightarrow> v)]\<rparr>"
    if "task self = Some t" for t
    using snd_extract_info_Inl [OF e] that by simp
qed

text \<open>
  A \<^verbatim>\<open>TypeError\<close>: the context holds \<^verbatim>\<open>None\<close> as its referer, and the raw value starts
  with one slash.
\<close>

theorem extract_wraps_every_exception_witness:
  "extract_url url_information
     (example_extractor (example_soup (Some (pdf_tag_with ''/x'')) None None None None)
        (Some (example_task NoneV)))
     = Inl TypeError
   \<and> fst (extract_info url_information
          (example_extractor (example_soup (Some (pdf_tag_with ''/x'')) None None None None)
             (Some (example_task NoneV))))
     = Inl (ExtractException TypeError)
   \<and> (\<exists>t'. task (snd (extract_info url_information
          (example_extractor (example_soup (Some (pdf_tag_with ''/x'')) None None None None)
             (Some (example_task NoneV))))) = Some t'
        \<and> context t' ''status'' = Some (StrV ''extracting_failed'')
        \<and> context t' ''error'' = Some (ExnV TypeError))
   \<and> service (snd (extract_info url_information
          (example_extractor (example_soup (Some (pdf_tag_with ''/x'')) None None None None)
             (Some (example_task NoneV)))))
     = [IncrementFailedTimes NoneV]"
proof -
  let ?t = "example_task NoneV"
  let ?t' = "?t\<lparr>context := (context ?t)(''status'' \<mapsto> StrV ''extracting'')\<rparr>"
  let ?self = "example_extractor (example_soup (Some (pdf_tag_with ''/x'')) None None None None)
      (Some ?t)"
  have tk: "task ?self = Some ?t'" by (simp add: example_extractor_def init_def)
  have raised: "extract_url url_information ?self = Inl TypeError"
    by (simp add: run_defs ex_defs)
  note th = extract_wraps_every_exception [of url_information ?self]
  from th raised have wrapped: "fst (extract_info url_information ?self)
      = Inl (ExtractException TypeError)"
    by blast
  from th raised tk have st: "snd (extract_info url_information ?self) =
      ?self\<lparr>task := Some (?t'\<lparr>context := (context ?t')(''status'' \<mapsto> StrV ''extracting_failed'',
                                                          ''error'' \<mapsto> ExnV TypeError)\<rparr>),
            service := service ?self
              @ [IncrementFailedTimes (case context ?t' ''referer'' of None \<Rightarrow> NoneV | Some v \<Rightarrow> v)]\<rparr>"
    by blast
  have svc: "service ?self = []" by (simp add: example_extractor_def init_def)
  have ref: "context ?t' ''referer'' = Some NoneV" by (simp add: example_task_def)
  show ?thesis unfolding st using raised wrapped svc ref by simp
qed

section \<open>The choice of the default referer\<close>

text \<open>
  Claim C9. When the configured chooser (the one registered under the configured type, or
  the availability-first chooser when none is) reports no candidate,
  \<^verbatim>\<open>get_default_referer\<close> returns the hardcoded mirror \<^verbatim>\<open>https://sci-hub.se\<close>; when it
  reports at least one, the result is the URL of the mirror that \<^verbatim>\<open>next()\<close> returns.
\<close>

theorem get_default_referer_choice:
  assumes "ch = (case scihub_url_choosers ty of None \<Rightarrow> availability_first | Some c \<Rightarrow> c)"
  shows "(chooser_len ch = 0 \<longrightarrow>
            get_default_referer ty scihub_url_choosers availability_first
              = Inr ''https://sci-hub.se'')
       \<and> (chooser_len ch \<noteq> 0 \<longrightarrow>
            (\<forall>m. chooser_next ch = Inr m \<longrightarrow>
               get_default_referer ty scihub_url_choosers availability_first = Inr (url m)))"
  using assms by (simp add: get_default_referer_def)

text \<open>A chooser without candidates, and a registered chooser with two.\<close>

theorem get_default_referer_choice_witness:
  "get_default_referer ''availability_first'' Map.empty
     \<lparr>chooser_len = 0, chooser_next = Inl (OtherException ''NoMirrorAvailable'')\<rparr>
     = Inr ''https://sci-hub.se''
   \<and> get_default_referer ''round_robin''
       [''round_robin'' \<mapsto>
          \<lparr>chooser_len = 2,
           chooser_next = Inr \<lparr>url = ''https://m1.test'', success_times = 3, failed_times = 1\<rparr>\<rparr>]
       \<lparr>chooser_len = 0, chooser_next = Inl (OtherException ''NoMirrorAvailable'')\<rparr>
     = Inr ''https://m1.test''"
proof -
  let ?empty = "\<lparr>chooser_len = 0, chooser_next = Inl (OtherException ''NoMirrorAvailable'')\<rparr>"
  let ?m = "\<lparr>url = ''https://m1.test'', success_times = 3, failed_times = 1\<rparr>"
  let ?two = "\<lparr>chooser_len = 2, chooser_next = Inr ?m\<rparr>"
  show ?thesis
    using
      get_default_referer_choice [where ch = ?empty and scihub_url_choosers = Map.empty
        and ty = "''availability_first''" and availability_first = ?empty]
      get_default_referer_choice [where ch = ?two
        and scihub_url_choosers = "[''round_robin'' \<mapsto> ?two]"
        and ty = "''round_robin''" and availability_first = ?empty]
    by simp
qed

end
